theory Spec2Isabelle
  imports Main "HOL-Library.Word" "HOL-Library.Signed_Division"
begin

unbundle bit_operations_syntax

section \<open>POSIX semaphores on top of the kernel semaphore (kernel/posix/semaphore.c)\<close>

subsection \<open>Constants and types of include/posix/semaphore.h\<close>

definition PATH_MAX :: nat where
  "PATH_MAX = 64"

definition O_CREAT :: "32 word" where
  "O_CREAT = push_bit 0 1"

definition O_EXCL :: "32 word" where
  "O_EXCL = push_bit 1 1"

definition SEM_VALUE_MAX :: "32 word" where
  "SEM_VALUE_MAX = - 1"

definition SEM_NAMED_N_LIMIT :: "32 word" where
  "SEM_NAMED_N_LIMIT = 32"

text \<open>
  The error numbers the file stores into \<open>errno\<close>. Their numeric values come from the
  platform's errno.h and play no role: the code only stores them and compares one of them.
\<close>

datatype errno_code = EINVAL | ENFILE | EEXIST | ENOENT | EBUSY | EAGAIN | ETIMEDOUT

text \<open>
  \<open>struct timespec\<close> as the header declares it when the C library does not: two signed
  32-bit fields.
\<close>

record timespec =
  tv_sec :: "32 word"
  tv_nsec :: "32 word"

text \<open>
  Modelled from the spec: the kernel's \<open>struct k_sem\<close> behind \<open>sem_t\<close>, with \<open>k_sem_init\<close>
  and \<open>k_sem_count_get\<close>, is not part of these sources. The model keeps the two attributes
  the spec names for a semaphore instance, the current count and the upper bound, and takes
  the two functions as the spec's \<open>init(count, max)\<close> and \<open>count()\<close>.
\<close>

record k_sem =
  count :: "32 word"
  limit :: "32 word"

definition k_sem_init :: "32 word \<Rightarrow> 32 word \<Rightarrow> k_sem" where
  "k_sem_init initial_count lim = \<lparr>count = initial_count, limit = lim\<rparr>"

definition k_sem_count_get :: "k_sem \<Rightarrow> 32 word" where
  "k_sem_count_get ks = count ks"

text \<open>
  A \<open>sem_t *\<close>. The only addresses the registry distinguishes are those of the semaphores
  embedded in its own table: \<open>Slot_sem i\<close> is \<open>&sem_named[i].sem\<close>, \<open>Other_sem a\<close> is the
  address of any semaphore outside the table (an anonymous one).
\<close>

datatype sem_ptr = Slot_sem nat | Other_sem nat

subsection \<open>The private named semaphore and the global table\<close>

text \<open>
  \<open>struct _nsem\<close>. The name is a pointer in the code: \<open>None\<close> is the null pointer of a
  slot of the zero-initialised static array, \<open>Some n\<close> points to the characters \<open>n\<close>
  (without the terminating zero). The code stores the caller's pointer and never copies;
  the model assumes that the caller leaves the characters alone.
\<close>

record nsem =
  sem :: k_sem
  name :: "string option"
  refs :: "32 word"
  to_free :: bool
  in_use :: bool

text \<open>
  The mutable globals: the counter \<open>sem_named_n\<close> (an \<open>int\<close>, only compared for equality
  and incremented), the array \<open>sem_named\<close>, and \<open>errno\<close> (\<open>None\<close>: never assigned).
\<close>

record state =
  sem_named_n :: "32 word"
  sem_named :: "nsem list"
  errno :: "errno_code option"

definition zero_nsem :: nsem where
  "zero_nsem = \<lparr>sem = \<lparr>count = 0, limit = 0\<rparr>, name = None, refs = 0,
                 to_free = False, in_use = False\<rparr>"

definition initial_state :: state where
  "initial_state = \<lparr>sem_named_n = 0, sem_named = replicate (unat SEM_NAMED_N_LIMIT) zero_nsem,
                     errno = None\<rparr>"

subsection \<open>Table search\<close>

text \<open>
  \<open>strncmp\<close> of the C library on two strings and a length bound: zero iff the strings
  agree on their first \<open>n\<close> characters (or up to their common end).
\<close>

fun strncmp :: "string \<Rightarrow> string \<Rightarrow> nat \<Rightarrow> int" where
  "strncmp s1 s2 0 = 0"
| "strncmp [] [] (Suc n) = 0"
| "strncmp [] (c2 # s2) (Suc n) = - int (of_char c2)"
| "strncmp (c1 # s1) [] (Suc n) = int (of_char c1)"
| "strncmp (c1 # s1) (c2 # s2) (Suc n) =
     (if c1 = c2 then strncmp s1 s2 n else int (of_char c1) - int (of_char c2))"

text \<open>
  The three loops of the file have one shape:
  \<^verbatim>\<open>it = sem_named; lmt = sem_named + SEM_NAMED_N_LIMIT;
  while (it != lmt && !semp) { if (COND) semp = it; ++it; }\<close>
  \<open>scan_nsem cond slots i\<close> walks the remaining slots, \<open>i\<close> being the index of the first
  of them, and returns the index of the first slot that satisfies the condition.
\<close>

fun scan_nsem :: "(nat \<Rightarrow> nsem \<Rightarrow> bool) \<Rightarrow> nsem list \<Rightarrow> nat \<Rightarrow> nat option" where
  "scan_nsem cond [] i = None"
| "scan_nsem cond (it # rest) i = (if cond i it then Some i else scan_nsem cond rest (Suc i))"

text \<open>
  The condition of \<open>find_by_name_nsem\<close>: \<^verbatim>\<open>!strncmp(name, it->name, PATH_MAX) && it->in_use\<close>.
  On a slot that was never allocated the code hands the null pointer to \<open>strncmp\<close>, which C
  leaves undefined; the model takes that comparison as a mismatch.
\<close>

definition name_cond :: "string \<Rightarrow> nat \<Rightarrow> nsem \<Rightarrow> bool" where
  "name_cond nm i it =
     ((case name it of None \<Rightarrow> False | Some n \<Rightarrow> strncmp nm n PATH_MAX = 0) \<and> in_use it)"

definition find_by_name_nsem :: "string \<Rightarrow> state \<Rightarrow> nat option" where
  "find_by_name_nsem nm s = scan_nsem (name_cond nm) (sem_named s) 0"

text \<open>The condition of \<open>find_by_addr_nsem\<close>: \<^verbatim>\<open>&it->sem == sem && it->in_use\<close>.\<close>

definition addr_cond :: "sem_ptr \<Rightarrow> nat \<Rightarrow> nsem \<Rightarrow> bool" where
  "addr_cond p i it = (Slot_sem i = p \<and> in_use it)"

definition find_by_addr_nsem :: "sem_ptr \<Rightarrow> state \<Rightarrow> nat option" where
  "find_by_addr_nsem p s = scan_nsem (addr_cond p) (sem_named s) 0"

subsection \<open>Slot bookkeeping\<close>

definition update_nsem :: "nat \<Rightarrow> (nsem \<Rightarrow> nsem) \<Rightarrow> state \<Rightarrow> state" where
  "update_nsem i f s = s\<lparr>sem_named := (sem_named s)[i := f (sem_named s ! i)]\<rparr>"

text \<open>
  \<^verbatim>\<open>return --nsem->refs;\<close> on an unsigned 32-bit field: the decrement wraps, and the
  new value is returned (converted to \<open>int\<close>, which keeps zero apart from non-zero).
\<close>

definition dereference_nsem :: "nat \<Rightarrow> state \<Rightarrow> 32 word \<times> state" where
  "dereference_nsem i s =
     (let r = refs (sem_named s ! i) - 1
      in (r, update_nsem i (\<lambda>n. n\<lparr>refs := r\<rparr>) s))"

definition free_cond :: "nat \<Rightarrow> nsem \<Rightarrow> bool" where
  "free_cond i it = (\<not> in_use it)"

definition alloc_nsem :: "string \<Rightarrow> state \<Rightarrow> nat option \<times> state" where
  "alloc_nsem nm s =
     (case scan_nsem free_cond (sem_named s) 0 of
        None \<Rightarrow> (None, s)
      | Some i \<Rightarrow>
          (Some i,
           update_nsem i (\<lambda>n. n\<lparr>in_use := True, to_free := False, name := Some nm, refs := 1\<rparr>) s))"

subsection \<open>Anonymous semaphore operations\<close>

definition sem_init :: "32 word \<Rightarrow> 32 word \<Rightarrow> int \<times> k_sem" where
  "sem_init pshared val = (0, k_sem_init val SEM_VALUE_MAX)"

definition sem_destroy :: "k_sem \<Rightarrow> state \<Rightarrow> int \<times> state" where
  "sem_destroy ks s =
     (if k_sem_count_get ks \<noteq> 0 then (- 1, s\<lparr>errno := Some EBUSY\<rparr>) else (0, s))"

text \<open>\<open>free_nsem\<close> clears the flag and drops the result of \<open>sem_destroy\<close>.\<close>

definition free_nsem :: "nat \<Rightarrow> state \<Rightarrow> state" where
  "free_nsem i s =
     (let s1 = update_nsem i (\<lambda>n. n\<lparr>in_use := False\<rparr>) s
      in snd (sem_destroy (sem (sem_named s1 ! i)) s1))"

subsection \<open>Timed wait\<close>

text \<open>
  What \<open>sem_timedwait\<close> hands back: the return value, the state of \<open>errno\<close> it leaves, and
  the list of timeouts it passed to \<open>k_sem_take\<close> (empty when the primitive was not called).
\<close>

record timedwait_result =
  tw_ret :: int
  tw_errno :: "errno_code option"
  tw_takes :: "32 word list"

text \<open>
  The kernel side is a parameter, its code being outside these sources: \<open>take_ret\<close> is
  what \<open>k_sem_take\<close> returns when it is called (\<open>None\<close> for 0, \<open>Some e\<close> for \<open>-e\<close>), and
  \<open>now\<close> is the value of \<open>__ticks_to_ms(k_cycle_get_32())\<close>, a signed 64-bit number of
  milliseconds. \<open>err\<close> is \<open>errno\<close> before the call.

  \<open>tv_sec * 1000\<close> is a product of two 32-bit \<open>int\<close>s, widened to 64 bits afterwards
  (the model wraps where C leaves the overflow undefined); \<open>tv_nsec / 1000000\<close> is C's
  truncating division; the difference is cut to 32 bits by the cast to \<open>s32_t\<close>.
\<close>

definition sem_timedwait ::
  "errno_code option \<Rightarrow> 64 word \<Rightarrow> errno_code option \<Rightarrow> timespec \<Rightarrow> timedwait_result" where
  "sem_timedwait take_ret now err abs_timeout =
     (if tv_nsec abs_timeout <s 0 \<or> 1000000000 <s tv_nsec abs_timeout
      then \<lparr>tw_ret = - 1, tw_errno = Some EINVAL, tw_takes = []\<rparr>
      else
        let wakeup = (scast (tv_sec abs_timeout * 1000 :: 32 word) :: 64 word);
            wakeup = wakeup
              + scast (word_of_int (sint (tv_nsec abs_timeout) sdiv 1000000) :: 32 word);
            timeout = (ucast (wakeup - now) :: 32 word)
        in if take_ret = Some EBUSY
           then \<lparr>tw_ret = - 1, tw_errno = Some ETIMEDOUT, tw_takes = [timeout]\<rparr>
           else \<lparr>tw_ret = 0, tw_errno = err, tw_takes = [timeout]\<rparr>)"

subsection \<open>The registry transactions\<close>

text \<open>
  \<open>sem_open\<close> either returns a pointer (\<open>None\<close> is \<open>SEM_FAILED\<close>) and the new globals, or it
  writes through the null pointer: \<open>alloc_nsem\<close> returns \<open>NULL\<close> when no slot is free, and
  the code passes \<open>&nsem->sem\<close> to \<open>sem_init\<close> unchecked. The variadic arguments are the
  unused permissions and the initial value \<open>val\<close>, read only when a slot is created.
\<close>

datatype open_outcome = Returns "sem_ptr option" state | Null_deref

definition sem_open :: "string \<Rightarrow> 32 word \<Rightarrow> 32 word \<Rightarrow> state \<Rightarrow> open_outcome" where
  "sem_open nm oflag val s =
     (if sem_named_n s = SEM_NAMED_N_LIMIT then Returns None (s\<lparr>errno := Some ENFILE\<rparr>)
      else
        case find_by_name_nsem nm s of
          Some i \<Rightarrow>
            if oflag AND O_EXCL \<noteq> 0 then Returns None (s\<lparr>errno := Some EEXIST\<rparr>)
            else Returns (Some (Slot_sem i)) s
        | None \<Rightarrow>
            if oflag AND O_CREAT = 0 then Returns None (s\<lparr>errno := Some ENOENT\<rparr>)
            else
              (case alloc_nsem nm s of
                 (None, s1) \<Rightarrow> Null_deref
               | (Some i, s1) \<Rightarrow>
                   let s2 = update_nsem i (\<lambda>n. n\<lparr>sem := snd (sem_init 0 val)\<rparr>) s1
                   in Returns (Some (Slot_sem i)) (s2\<lparr>sem_named_n := sem_named_n s2 + 1\<rparr>)))"

definition sem_close :: "sem_ptr \<Rightarrow> state \<Rightarrow> int \<times> state" where
  "sem_close p s =
     (case find_by_addr_nsem p s of
        None \<Rightarrow> (- 1, s\<lparr>errno := Some EINVAL\<rparr>)
      | Some i \<Rightarrow>
          (case dereference_nsem i s of
             (r, s1) \<Rightarrow>
               (0, if r = 0 then (if to_free (sem_named s1 ! i) then free_nsem i s1 else s1)
                   else s1)))"

definition sem_unlink :: "string \<Rightarrow> state \<Rightarrow> int \<times> state" where
  "sem_unlink nm s =
     (case find_by_name_nsem nm s of
        None \<Rightarrow> (- 1, s\<lparr>errno := Some ENOENT\<rparr>)
      | Some i \<Rightarrow>
          (let s1 = update_nsem i (\<lambda>n. n\<lparr>to_free := True\<rparr>) s
           in case dereference_nsem i s1 of
                (r, s2) \<Rightarrow> (0, if r = 0 then free_nsem i s2 else s2)))"

subsection \<open>Sequences of calls\<close>

text \<open>
  A caller's history is a list of calls, run from left to right on the globals; the run
  stops without a result when a call writes through the null pointer.
\<close>

datatype call = Open string "32 word" "32 word" | Close sem_ptr | Unlink string

datatype result = Opened "sem_ptr option" | Closed int | Unlinked int

fun step :: "call \<Rightarrow> state \<Rightarrow> (result \<times> state) option" where
  "step (Open nm oflag val) s =
     (case sem_open nm oflag val s of
        Null_deref \<Rightarrow> None
      | Returns p s1 \<Rightarrow> Some (Opened p, s1))"
| "step (Close p) s = (case sem_close p s of (r, s1) \<Rightarrow> Some (Closed r, s1))"
| "step (Unlink nm) s = (case sem_unlink nm s of (r, s1) \<Rightarrow> Some (Unlinked r, s1))"

fun run :: "call list \<Rightarrow> state \<Rightarrow> (result list \<times> state) option" where
  "run [] s = Some ([], s)"
| "run (c # cs) s =
     (case step c s of
        None \<Rightarrow> None
      | Some (r, s1) \<Rightarrow>
          (case run cs s1 of None \<Rightarrow> None | Some (rs, s2) \<Rightarrow> Some (r # rs, s2)))"

text \<open>The names \<open>a0\<close>, \<open>a1\<close>, ... of the capacity scenario.\<close>

fun dec :: "nat \<Rightarrow> string" where
  "dec n = (if n < 10 then [char_of (48 + n)] else dec (n div 10) @ [char_of (48 + n mod 10)])"

definition sem_name :: "nat \<Rightarrow> string" where
  "sem_name i = CHR ''a'' # dec i"

definition create_all :: "call list" where
  "create_all = map (\<lambda>i. Open (sem_name i) O_CREAT 0) [0..<32]"

text \<open>
  Two reference points: \<open>one_state\<close>, the globals after \<open>sem_open("s", O_CREAT | O_EXCL, 0, 1)\<close>
  on the initial table (lemma \<open>create_one_state\<close>), and \<open>full_state\<close>, the globals once
  \<open>a0\<close> ... \<open>a31\<close> have been created (lemma \<open>create_all_full_state\<close>).
\<close>

definition one_state :: state where
  "one_state =
     \<lparr>sem_named_n = 1,
      sem_named =
        \<lparr>sem = \<lparr>count = 1, limit = - 1\<rparr>, name = Some ''s'', refs = 1,
           to_free = False, in_use = True\<rparr> # replicate 31 zero_nsem,
      errno = None\<rparr>"

definition full_state :: state where
  "full_state =
     \<lparr>sem_named_n = 32,
      sem_named =
        map (\<lambda>i. \<lparr>sem = \<lparr>count = 0, limit = - 1\<rparr>, name = Some (sem_name i), refs = 1,
                   to_free = False, in_use = True\<rparr>) [0..<32],
      errno = None\<rparr>"

subsection \<open>The invariant of the globals\<close>

text \<open>
  What every history keeps true: the array has its 32 slots, the counter is at most 32,
  and it is at least the number of slots in use.
\<close>

definition used_slots :: "state \<Rightarrow> nat" where
  "used_slots s = length (filter in_use (sem_named s))"

definition registry_inv :: "state \<Rightarrow> bool" where
  "registry_inv s \<longleftrightarrow>
     length (sem_named s) = unat SEM_NAMED_N_LIMIT \<and>
     used_slots s \<le> unat (sem_named_n s) \<and>
     sem_named_n s \<le> SEM_NAMED_N_LIMIT"

section \<open>Properties\<close>

subsection \<open>The table scan and the two lookups\<close>

text \<open>A successful scan returns an index inside the array whose slot meets the condition.\<close>

lemma scan_nsem_SomeD:
  "scan_nsem cond xs k = Some i \<Longrightarrow> k \<le> i \<and> i < k + length xs \<and> cond i (xs ! (i - k))"
proof (induction xs arbitrary: k)
  case Nil
  then show ?case by simp
next
  case (Cons x xs)
  show ?case
  proof (cases "cond k x")
    case True
    with Cons.prems show ?thesis by simp
  next
    case False
    with Cons.prems have "scan_nsem cond xs (Suc k) = Some i" by simp
    from Cons.IH [OF this] show ?thesis by (simp add: Suc_diff_le)
  qed
qed

text \<open>A scan fails exactly when no slot meets the condition.\<close>

lemma scan_nsem_None_iff:
  "scan_nsem cond xs k = None \<longleftrightarrow> (\<forall>j < length xs. \<not> cond (k + j) (xs ! j))"
proof (induction xs arbitrary: k)
  case Nil
  then show ?case by simp
next
  case (Cons x xs)
  show ?case
    by (simp add: Cons.IH All_less_Suc2)
qed

text \<open>
  An address is found exactly when it is the address of the semaphore of a slot in use;
  a name is found only at a slot in use whose name compares equal.
\<close>

lemma find_by_addr_nsem_Some:
  "find_by_addr_nsem p s = Some i \<longleftrightarrow> p = Slot_sem i \<and> i < length (sem_named s) \<and> in_use (sem_named s ! i)"
proof
  assume "find_by_addr_nsem p s = Some i"
  from scan_nsem_SomeD [OF this [unfolded find_by_addr_nsem_def]]
  show "p = Slot_sem i \<and> i < length (sem_named s) \<and> in_use (sem_named s ! i)"
    by (auto simp: addr_cond_def)
next
  assume a: "p = Slot_sem i \<and> i < length (sem_named s) \<and> in_use (sem_named s ! i)"
  show "find_by_addr_nsem p s = Some i"
  proof (cases "find_by_addr_nsem p s")
    case None
    then have "\<forall>j < length (sem_named s). \<not> addr_cond p j (sem_named s ! j)"
      by (simp add: find_by_addr_nsem_def scan_nsem_None_iff)
    with a show ?thesis by (auto simp: addr_cond_def)
  next
    case (Some j)
    from scan_nsem_SomeD [OF this [unfolded find_by_addr_nsem_def]] a
    have "j = i" by (auto simp: addr_cond_def)
    with Some show ?thesis by simp
  qed
qed

lemma find_by_name_nsem_SomeD:
  "find_by_name_nsem nm s = Some i \<Longrightarrow>
   i < length (sem_named s) \<and> in_use (sem_named s ! i) \<and>
   (\<exists>n. name (sem_named s ! i) = Some n \<and> strncmp nm n PATH_MAX = 0)"
  by (auto simp: find_by_name_nsem_def name_cond_def dest!: scan_nsem_SomeD split: option.splits)

subsection \<open>The reference states are reached from the initial table\<close>

lemma create_one_state:
  "run [Open ''s'' (O_CREAT OR O_EXCL) 1] initial_state = Some ([Opened (Some (Slot_sem 0))], one_state)"
  by code_simp

lemma create_all_full_state:
  "run create_all initial_state = Some (map (\<lambda>i. Opened (Some (Slot_sem i))) [0..<32], full_state)"
  by code_simp

subsection \<open>Every history returns and keeps the invariant\<close>

text \<open>Replacing one slot changes the number of slots in use only by that slot.\<close>

lemma filter_update_length:
  "i < length xs \<Longrightarrow>
   length (filter P (xs[i := y])) + (if P (xs ! i) then 1 else 0)
     = length (filter P xs) + (if P y then 1 else 0)"
proof (induction xs arbitrary: i)
  case Nil
  then show ?case by simp
next
  case (Cons x xs)
  show ?case
  proof (cases i)
    case 0
    then show ?thesis by simp
  next
    case (Suc j)
    with Cons.prems have "j < length xs" by simp
    from Cons.IH [OF this] Suc show ?thesis by simp
  qed
qed

lemma used_slots_same_flag:
  "i < length (sem_named s) \<Longrightarrow> in_use (f (sem_named s ! i)) = in_use (sem_named s ! i) \<Longrightarrow>
   used_slots (update_nsem i f s) = used_slots s"
  using filter_update_length [of i "sem_named s" in_use "f (sem_named s ! i)"]
  by (simp add: used_slots_def update_nsem_def)

lemma used_slots_clear:
  "i < length (sem_named s) \<Longrightarrow> \<not> in_use (f (sem_named s ! i)) \<Longrightarrow>
   used_slots (update_nsem i f s) \<le> used_slots s"
  using filter_update_length [of i "sem_named s" in_use "f (sem_named s ! i)"]
  by (simp add: used_slots_def update_nsem_def split: if_splits)

lemma used_slots_set:
  "i < length (sem_named s) \<Longrightarrow> \<not> in_use (sem_named s ! i) \<Longrightarrow> in_use (f (sem_named s ! i)) \<Longrightarrow>
   used_slots (update_nsem i f s) = Suc (used_slots s)"
  using filter_update_length [of i "sem_named s" in_use "f (sem_named s ! i)"]
  by (simp add: used_slots_def update_nsem_def)

lemma no_free_slot_all_used:
  assumes "scan_nsem free_cond (sem_named s) 0 = None"
  shows "used_slots s = length (sem_named s)"
proof -
  from assms have "\<forall>j < length (sem_named s). in_use (sem_named s ! j)"
    by (simp add: scan_nsem_None_iff free_cond_def)
  then have "\<forall>x \<in> set (sem_named s). in_use x"
    by (auto simp: in_set_conv_nth)
  then show ?thesis
    by (simp add: used_slots_def)
qed

lemma registry_inv_initial: "registry_inv initial_state"
  by (simp add: registry_inv_def initial_state_def used_slots_def zero_nsem_def
      SEM_NAMED_N_LIMIT_def)


lemma registry_inv_errno [simp]: "registry_inv (s\<lparr>errno := e\<rparr>) = registry_inv s"
  by (simp add: registry_inv_def used_slots_def)

lemma length_update_nsem [simp]: "length (sem_named (update_nsem i f s)) = length (sem_named s)"
  by (simp add: update_nsem_def)

lemma counter_update_nsem [simp]: "sem_named_n (update_nsem i f s) = sem_named_n s"
  by (simp add: update_nsem_def)

lemma nth_update_nsem [simp]:
  "i < length (sem_named s) \<Longrightarrow> sem_named (update_nsem i f s) ! i = f (sem_named s ! i)"
  by (simp add: update_nsem_def)

lemma registry_inv_keep:
  "registry_inv s \<Longrightarrow> i < length (sem_named s) \<Longrightarrow>
   in_use (f (sem_named s ! i)) \<longrightarrow> in_use (sem_named s ! i) \<Longrightarrow>
   registry_inv (update_nsem i f s)"
proof -
  assume inv: "registry_inv s" and i: "i < length (sem_named s)"
    and f: "in_use (f (sem_named s ! i)) \<longrightarrow> in_use (sem_named s ! i)"
  have "used_slots (update_nsem i f s) \<le> used_slots s"
  proof (cases "in_use (f (sem_named s ! i))")
    case True
    with f have "in_use (f (sem_named s ! i)) = in_use (sem_named s ! i)" by simp
    from used_slots_same_flag [of i s f, OF i this] show ?thesis by simp
  next
    case False
    from used_slots_clear [of i s f, OF i this] show ?thesis .
  qed
  with inv show ?thesis
    by (simp add: registry_inv_def)
qed

lemma registry_inv_dereference:
  "registry_inv s \<Longrightarrow> i < length (sem_named s) \<Longrightarrow> registry_inv (snd (dereference_nsem i s))"
  by (simp add: dereference_nsem_def Let_def registry_inv_keep)

lemma registry_inv_free:
  "registry_inv s \<Longrightarrow> i < length (sem_named s) \<Longrightarrow> registry_inv (free_nsem i s)"
  by (simp add: free_nsem_def Let_def sem_destroy_def registry_inv_keep)

lemma length_dereference [simp]:
  "length (sem_named (snd (dereference_nsem i s))) = length (sem_named s)"
  by (simp add: dereference_nsem_def Let_def)

lemma registry_inv_close:
  assumes "registry_inv s"
  shows "registry_inv (snd (sem_close p s))"
proof (cases "find_by_addr_nsem p s")
  case None
  with assms show ?thesis by (simp add: sem_close_def)
next
  case (Some i)
  then have i: "i < length (sem_named s)"
    by (simp add: find_by_addr_nsem_Some)
  obtain r s1 where dr: "dereference_nsem i s = (r, s1)"
    by (cases "dereference_nsem i s")
  from registry_inv_dereference [OF assms i] dr
  have d: "registry_inv s1" by simp
  from i length_dereference [of i s] dr have "i < length (sem_named s1)" by simp
  from registry_inv_free [OF d this] d Some dr show ?thesis
    by (simp add: sem_close_def)
qed

lemma registry_inv_unlink:
  assumes "registry_inv s"
  shows "registry_inv (snd (sem_unlink nm s))"
proof (cases "find_by_name_nsem nm s")
  case None
  with assms show ?thesis by (simp add: sem_unlink_def)
next
  case (Some i)
  then have i: "i < length (sem_named s)"
    by (simp add: find_by_name_nsem_SomeD)
  from Some have u: "in_use (sem_named s ! i)"
    by (simp add: find_by_name_nsem_SomeD)
  let ?s1 = "update_nsem i (\<lambda>n. n\<lparr>to_free := True\<rparr>) s"
  from registry_inv_keep [OF assms i, of "\<lambda>n. n\<lparr>to_free := True\<rparr>"]
  have a: "registry_inv ?s1" by simp
  from i have i1: "i < length (sem_named ?s1)" by simp
  obtain r s2 where dr: "dereference_nsem i ?s1 = (r, s2)"
    by (cases "dereference_nsem i ?s1")
  from registry_inv_dereference [OF a i1] dr
  have d: "registry_inv s2" by simp
  from i1 length_dereference [of i ?s1] dr have "i < length (sem_named s2)" by simp
  from registry_inv_free [OF d this] d Some dr show ?thesis
    by (simp add: sem_unlink_def Let_def)
qed

text \<open>Below the limit the increment of the counter does not wrap.\<close>

lemma counter_below_limit:
  "(n :: 32 word) \<le> 32 \<Longrightarrow> n \<noteq> 32 \<Longrightarrow> unat (n + 1) = Suc (unat n) \<and> n + 1 \<le> 32 \<and> unat n < 32"
proof -
  assume "n \<le> 32" and "n \<noteq> 32"
  then have "unat n \<le> 32" and "unat n \<noteq> 32"
    by (simp_all add: word_le_nat_alt word_unat_eq_iff)
  then have l: "unat n < 32" by simp
  then have u: "unat (n + 1) = Suc (unat n)"
    by (simp add: unat_word_ariths)
  with l have "n + 1 \<le> 32"
    by (simp add: word_le_nat_alt)
  with u l show ?thesis by simp
qed

text \<open>
  Under the invariant \<open>sem_open\<close> never reaches the unchecked null pointer: when the
  counter is below 32 some slot is free, so \<open>alloc_nsem\<close> finds one.
\<close>

lemma registry_inv_open:
  assumes "registry_inv s"
  shows "\<exists>p s1. sem_open nm oflag val s = Returns p s1 \<and> registry_inv s1"
proof (cases "sem_named_n s = SEM_NAMED_N_LIMIT")
  case True
  with assms show ?thesis by (simp add: sem_open_def)
next
  case full: False
  show ?thesis
  proof (cases "find_by_name_nsem nm s")
    case (Some i)
    with assms full show ?thesis by (simp add: sem_open_def)
  next
    case None
    show ?thesis
    proof (cases "oflag AND O_CREAT = 0")
      case True
      with assms full None show ?thesis by (simp add: sem_open_def)
    next
      case False
      from assms full have c: "unat (sem_named_n s + 1) = Suc (unat (sem_named_n s))"
        "sem_named_n s + 1 \<le> 32" "unat (sem_named_n s) < 32"
        using counter_below_limit [of "sem_named_n s"]
        by (simp_all add: registry_inv_def SEM_NAMED_N_LIMIT_def)
      from assms have len: "length (sem_named s) = 32"
        by (simp add: registry_inv_def SEM_NAMED_N_LIMIT_def)
      from assms have us: "used_slots s \<le> unat (sem_named_n s)"
        by (simp add: registry_inv_def)
      have "scan_nsem free_cond (sem_named s) 0 \<noteq> None"
      proof
        assume "scan_nsem free_cond (sem_named s) 0 = None"
        from no_free_slot_all_used [OF this] len us c(3) show False by simp
      qed
      then obtain i where sc: "scan_nsem free_cond (sem_named s) 0 = Some i" by auto
      from scan_nsem_SomeD [OF sc] have i: "i < length (sem_named s)"
        and fr: "\<not> in_use (sem_named s ! i)"
        by (simp_all add: free_cond_def)
      let ?s1 = "update_nsem i (\<lambda>n. n\<lparr>in_use := True, to_free := False, name := Some nm, refs := 1\<rparr>) s"
      let ?s2 = "update_nsem i (\<lambda>n. n\<lparr>sem := snd (sem_init 0 val)\<rparr>) ?s1"
      from used_slots_set [OF i fr, of "\<lambda>n. n\<lparr>in_use := True, to_free := False, name := Some nm, refs := 1\<rparr>"]
      have u1: "used_slots ?s1 = Suc (used_slots s)" by simp
      from i have i1: "i < length (sem_named ?s1)" by simp
      from used_slots_same_flag [OF i1, of "\<lambda>n. n\<lparr>sem := snd (sem_init 0 val)\<rparr>"]
      have u2: "used_slots ?s2 = used_slots ?s1" by simp
      have "registry_inv (?s2\<lparr>sem_named_n := sem_named_n ?s2 + 1\<rparr>)"
        using u1 u2 us c len
        by (simp add: registry_inv_def used_slots_def SEM_NAMED_N_LIMIT_def)
      moreover have "sem_open nm oflag val s
          = Returns (Some (Slot_sem i)) (?s2\<lparr>sem_named_n := sem_named_n ?s2 + 1\<rparr>)"
        using full None False sc by (simp add: sem_open_def alloc_nsem_def Let_def)
      ultimately show ?thesis by simp
    qed
  qed
qed

lemma step_registry_inv:
  assumes "registry_inv s"
  shows "\<exists>r s1. step c s = Some (r, s1) \<and> registry_inv s1"
proof (cases c)
  case (Open nm oflag val)
  from registry_inv_open [OF assms, of nm oflag val] Open show ?thesis by auto
next
  case (Close p)
  from registry_inv_close [OF assms, of p] Close show ?thesis
    by (auto split: prod.splits)
next
  case (Unlink nm)
  from registry_inv_unlink [OF assms, of nm] Unlink show ?thesis
    by (auto split: prod.splits)
qed

lemma run_registry_inv:
  "registry_inv s \<Longrightarrow> \<exists>rs s1. run cs s = Some (rs, s1) \<and> registry_inv s1"
proof (induction cs arbitrary: s)
  case Nil
  then show ?case by simp
next
  case (Cons c cs)
  from step_registry_inv [OF Cons.prems, of c]
  obtain r s1 where st: "step c s = Some (r, s1)" and inv: "registry_inv s1" by auto
  from Cons.IH [OF inv] obtain rs s2 where "run cs s1 = Some (rs, s2)" and "registry_inv s2"
    by auto
  with st show ?case by simp
qed

lemma run_initial_returns:
  "\<exists>rs s1. run cs initial_state = Some (rs, s1) \<and> registry_inv s1"
  by (rule run_registry_inv [OF registry_inv_initial])

subsection \<open>The counter is never decremented\<close>

text \<open>
  Neither \<open>sem_close\<close> nor \<open>sem_unlink\<close> touches \<open>sem_named_n\<close>, and \<open>sem_open\<close> only
  increments it below the limit: once the counter is 32 it is 32 after every history.
\<close>

lemma sem_close_counter: "sem_named_n (snd (sem_close p s)) = sem_named_n s"
  by (simp add: sem_close_def dereference_nsem_def free_nsem_def sem_destroy_def update_nsem_def
      Let_def split: option.splits)

lemma sem_unlink_counter: "sem_named_n (snd (sem_unlink nm s)) = sem_named_n s"
  by (simp add: sem_unlink_def dereference_nsem_def free_nsem_def sem_destroy_def update_nsem_def
      Let_def split: option.splits)

lemma step_counter_full:
  "sem_named_n s = SEM_NAMED_N_LIMIT \<Longrightarrow> step c s = Some (r, s1) \<Longrightarrow>
   sem_named_n s1 = SEM_NAMED_N_LIMIT"
proof (cases c)
  case (Open nm oflag val)
  assume "sem_named_n s = SEM_NAMED_N_LIMIT" and "step c s = Some (r, s1)"
  with Open show ?thesis by (auto simp: sem_open_def)
next
  case (Close p)
  assume "sem_named_n s = SEM_NAMED_N_LIMIT" and "step c s = Some (r, s1)"
  with Close sem_close_counter [of p s] show ?thesis by (auto split: prod.splits)
next
  case (Unlink nm)
  assume "sem_named_n s = SEM_NAMED_N_LIMIT" and "step c s = Some (r, s1)"
  with Unlink sem_unlink_counter [of nm s] show ?thesis by (auto split: prod.splits)
qed

lemma run_counter_full:
  "sem_named_n s = SEM_NAMED_N_LIMIT \<Longrightarrow> run cs s = Some (rs, s1) \<Longrightarrow>
   sem_named_n s1 = SEM_NAMED_N_LIMIT"
proof (induction cs arbitrary: s rs)
  case Nil
  then show ?case by simp
next
  case (Cons c cs)
  from Cons.prems(2) obtain r s2 rs2 where st: "step c s = Some (r, s2)"
    and ru: "run cs s2 = Some (rs2, s1)"
    by (auto split: option.splits prod.splits)
  from step_counter_full [OF Cons.prems(1) st] have "sem_named_n s2 = SEM_NAMED_N_LIMIT" .
  from Cons.IH [OF this ru] show ?case .
qed

subsection \<open>The timeout handed to the kernel\<close>

text \<open>
  Cutting the 64-bit difference to 32 bits gives the 32-bit word of the exact integer
  difference, whether or not the 32-bit product wrapped.
\<close>

lemma ucast_wakeup_diff:
  "(ucast ((scast (a :: 32 word) :: 64 word) + scast (b :: 32 word) - now) :: 32 word)
     = word_of_int (sint a + sint b - sint now)"
proof -
  have e: "(scast a :: 64 word) + scast b - now = word_of_int (sint a + sint b - sint now)"
    by simp
  have d: "is_down (ucast :: 64 word \<Rightarrow> 32 word)"
    by (simp add: is_down)
  show ?thesis
    unfolding e by (rule ucast_down_wi [OF d])
qed

lemma timeout_as_int:
  "(ucast ((scast (sec * 1000 :: 32 word) :: 64 word) + scast (word_of_int q :: 32 word) - now) :: 32 word)
     = word_of_int (sint sec * 1000 + q - sint now)"
proof -
  have "(word_of_int (sint (sec * 1000) + sint (word_of_int q :: 32 word) - sint now) :: 32 word)
      = word_of_int (sint sec * 1000 + q - sint now)"
    by simp
  then show ?thesis
    by (simp only: ucast_wakeup_diff)
qed

lemma relative_wait_sint:
  assumes "0 \<le>s tv_nsec ts" and "tv_nsec ts \<le>s 1000000000"
  shows "map sint (tw_takes (sem_timedwait take_ret now err ts))
     = [signed_take_bit 31 (sint (tv_sec ts) * 1000 + sint (tv_nsec ts) div 1000000 - sint now)]"
proof -
  from assms have v: "\<not> (tv_nsec ts <s 0 \<or> 1000000000 <s tv_nsec ts)"
    by (simp add: word_sle_eq word_sless_alt)
  from assms have "0 \<le> sint (tv_nsec ts)"
    by (simp add: word_sle_eq)
  then have q: "sint (tv_nsec ts) sdiv 1000000 = sint (tv_nsec ts) div 1000000"
    by (simp add: signed_divide_int_def sgn_if)
  have "tw_takes (sem_timedwait take_ret now err ts)
      = [ucast ((scast (tv_sec ts * 1000 :: 32 word) :: 64 word)
           + scast (word_of_int (sint (tv_nsec ts) sdiv 1000000) :: 32 word) - now)]"
    using v by (simp add: sem_timedwait_def Let_def)
  also have "\<dots> = [word_of_int (sint (tv_sec ts) * 1000 + sint (tv_nsec ts) div 1000000 - sint now)]"
    by (simp only: timeout_as_int q)
  finally have t: "tw_takes (sem_timedwait take_ret now err ts)
      = [word_of_int (sint (tv_sec ts) * 1000 + sint (tv_nsec ts) div 1000000 - sint now)]" .
  have l: "LENGTH(32) - 1 = 31" by simp
  show ?thesis
    by (simp only: t list.map sint_sbintrunc' l)
qed

lemma sem_timedwait_no_take_iff:
  "tw_takes (sem_timedwait take_ret now err ts) = [] \<longleftrightarrow>
     sint (tv_nsec ts) < 0 \<or> 1000000000 < sint (tv_nsec ts)"
  by (simp add: sem_timedwait_def Let_def word_sless_alt)

section \<open>The claims\<close>

subsection \<open>C1: attaching to a live name\<close>

text \<open>
  C1 (the reference count is incremented by each successful open of a live name, so that
  it is N - M after N opens and M closes). The code returns the handle of the slot, but no
  path of \<open>sem_open\<close> increments \<open>refs\<close>: after creating \<open>s\<close> and opening it a second time
  the count is 1 where the claim says 2, and one close later it is 0 where the claim says 1.
\<close>

theorem attach_leaves_refs:
  "run [Open ''s'' O_CREAT 1, Open ''s'' 0 0] initial_state
     = Some ([Opened (Some (Slot_sem 0)), Opened (Some (Slot_sem 0))],
         \<lparr>sem_named_n = 1,
          sem_named =
            \<lparr>sem = \<lparr>count = 1, limit = - 1\<rparr>, name = Some ''s'', refs = 1,
               to_free = False, in_use = True\<rparr> # replicate 31 zero_nsem,
          errno = None\<rparr>) \<and>
   run [Open ''s'' O_CREAT 1, Open ''s'' 0 0, Close (Slot_sem 0)] initial_state
     = Some ([Opened (Some (Slot_sem 0)), Opened (Some (Slot_sem 0)), Closed 0],
         \<lparr>sem_named_n = 1,
          sem_named =
            \<lparr>sem = \<lparr>count = 1, limit = - 1\<rparr>, name = Some ''s'', refs = 0,
               to_free = False, in_use = True\<rparr> # replicate 31 zero_nsem,
          errno = None\<rparr>)"
  by code_simp

subsection \<open>C2: unlink and deferred deletion\<close>

text \<open>
  C2 (unlink only sets the pending-deletion flag, tears the slot down at once only when the
  count is already zero, and a slot unlinked while references remain stays usable until the
  final close). \<open>sem_unlink\<close> tests the count through \<open>dereference_nsem\<close>, which decrements
  it. First history: with the creator's handle still open, unlink takes the count from 1 to
  0 and tears the slot down, and the holder's close fails with \<open>EINVAL\<close>. Second history:
  with the count already 0, unlink wraps it to \<open>2^32 - 1\<close> and the slot is not torn down.
\<close>

theorem unlink_drops_reference:
  "run [Open ''s'' O_CREAT 0, Unlink ''s'', Close (Slot_sem 0)] initial_state
     = Some ([Opened (Some (Slot_sem 0)), Unlinked 0, Closed (- 1)],
         \<lparr>sem_named_n = 1,
          sem_named =
            \<lparr>sem = \<lparr>count = 0, limit = - 1\<rparr>, name = Some ''s'', refs = 0,
               to_free = True, in_use = False\<rparr> # replicate 31 zero_nsem,
          errno = Some EINVAL\<rparr>) \<and>
   run [Open ''s'' O_CREAT 0, Close (Slot_sem 0), Unlink ''s''] initial_state
     = Some ([Opened (Some (Slot_sem 0)), Closed 0, Unlinked 0],
         \<lparr>sem_named_n = 1,
          sem_named =
            \<lparr>sem = \<lparr>count = 0, limit = - 1\<rparr>, name = Some ''s'', refs = 4294967295,
               to_free = True, in_use = True\<rparr> # replicate 31 zero_nsem,
          errno = None\<rparr>)"
  by code_simp

subsection \<open>C3: capacity after a teardown\<close>

text \<open>
  C3 (with 32 names created a 33rd fails with \<open>ENFILE\<close>, and succeeds once one name has
  been unlinked and closed). The first half holds; the second does not: tearing slot 0 down
  clears \<open>in_use\<close> and leaves \<open>sem_named_n\<close> at 32, so creating \<open>a32\<close> fails with \<open>ENFILE\<close>
  again (lemma \<open>run_counter_full\<close>: after any history at all).
\<close>

theorem capacity_never_returns:
  "run (create_all @ [Open ''a32'' O_CREAT 0, Unlink ''a0'', Close (Slot_sem 0),
                      Open ''a32'' O_CREAT 0]) initial_state
     = Some (map (\<lambda>i. Opened (Some (Slot_sem i))) [0..<32]
               @ [Opened None, Unlinked 0, Closed (- 1), Opened None],
         full_state
           \<lparr>sem_named :=
              (sem_named full_state)
                [0 := \<lparr>sem = \<lparr>count = 0, limit = - 1\<rparr>, name = Some ''a0'', refs = 0,
                        to_free = True, in_use = False\<rparr>],
            errno := Some ENFILE\<rparr>)"
  by code_simp

subsection \<open>C4: when sem_open reports ENFILE\<close>

text \<open>
  C4, as the code has it: \<open>sem_open\<close> fails with \<open>ENFILE\<close> exactly when the counter
  \<open>sem_named_n\<close> equals the limit 32, whether or not the name is live; when the counter
  differs from the limit, opening a live name without \<open>O_EXCL\<close> returns the handle of its
  slot.
\<close>

theorem sem_open_enfile_iff_counter:
  "(sem_named_n s = SEM_NAMED_N_LIMIT \<longrightarrow>
      sem_open nm oflag val s = Returns None (s\<lparr>errno := Some ENFILE\<rparr>)) \<and>
   (sem_open nm oflag val s = Returns None s1 \<longrightarrow>
      (errno s1 = Some ENFILE \<longleftrightarrow> sem_named_n s = SEM_NAMED_N_LIMIT)) \<and>
   (sem_named_n s \<noteq> SEM_NAMED_N_LIMIT \<and> find_by_name_nsem nm s = Some i \<and> oflag AND O_EXCL = 0 \<longrightarrow>
      sem_open nm oflag val s = Returns (Some (Slot_sem i)) s)"
  by (auto simp: sem_open_def Let_def split: if_splits option.splits prod.splits)

text \<open>
  The theorem at the full table (a new name), and at the table holding \<open>s\<close> alone (the
  live name \<open>s\<close>, and the unknown name \<open>t\<close> whose failure is not \<open>ENFILE\<close>).
\<close>

theorem sem_open_enfile_witness:
  "sem_named_n full_state = SEM_NAMED_N_LIMIT \<and>
   sem_open ''a32'' O_CREAT 0 full_state = Returns None (full_state\<lparr>errno := Some ENFILE\<rparr>) \<and>
   sem_named_n one_state \<noteq> SEM_NAMED_N_LIMIT \<and>
   find_by_name_nsem ''s'' one_state = Some 0 \<and> 0 AND O_EXCL = 0 \<and>
   sem_open ''s'' 0 0 one_state = Returns (Some (Slot_sem 0)) one_state \<and>
   sem_open ''t'' 0 0 one_state = Returns None (one_state\<lparr>errno := Some ENOENT\<rparr>) \<and>
   errno (one_state\<lparr>errno := Some ENOENT\<rparr>) \<noteq> Some ENFILE"
proof -
  have n1: "sem_named_n one_state \<noteq> SEM_NAMED_N_LIMIT"
    by code_simp
  have n2: "sem_named_n full_state = SEM_NAMED_N_LIMIT"
    by code_simp
  have h1: "find_by_name_nsem ''s'' one_state = Some 0"
    by code_simp
  have h2: "0 AND O_EXCL = 0"
    by simp
  have h3: "sem_open ''t'' 0 0 one_state = Returns None (one_state\<lparr>errno := Some ENOENT\<rparr>)"
    by code_simp
  from sem_open_enfile_iff_counter
      [of full_state "''a32''" O_CREAT 0 "full_state\<lparr>errno := Some ENFILE\<rparr>" 0]
    sem_open_enfile_iff_counter [of one_state "''s''" 0 0 "one_state" 0]
    sem_open_enfile_iff_counter
      [of one_state "''t''" 0 0 "one_state\<lparr>errno := Some ENOENT\<rparr>" 0]
    n1 n2 h1 h2 h3
  show ?thesis by simp
qed

text \<open>
  Against C4 as stated (a full table never prevents attaching to a live name): in the full
  table \<open>a1\<close> is live in slot 1, and opening it without any flag fails with \<open>ENFILE\<close>.
\<close>

theorem attach_full_table_counterexample:
  "find_by_name_nsem ''a1'' full_state = Some 1 \<and>
   sem_open ''a1'' 0 0 full_state = Returns None (full_state\<lparr>errno := Some ENFILE\<rparr>)"
  by code_simp

subsection \<open>C5: the nanosecond range of sem_timedwait\<close>

text \<open>
  C5 (a deadline whose nanosecond field is outside \<open>[0, 1000000000)\<close> fails with \<open>EINVAL\<close>
  before the primitive is called; in particular 1000000000 is rejected). The test of the
  code is \<open>tv_nsec > 1000000000\<close>: 2000000000 is rejected without a call of \<open>k_sem_take\<close>,
  but 1000000000 passes, and the primitive is called with a timeout of 1000 ms
  (lemma \<open>sem_timedwait_no_take_iff\<close> gives the range the code accepts).
\<close>

theorem sem_timedwait_accepts_full_second:
  "sem_timedwait None 0 None \<lparr>tv_sec = 0, tv_nsec = 1000000000\<rparr>
     = \<lparr>tw_ret = 0, tw_errno = None, tw_takes = [1000]\<rparr> \<and>
   sem_timedwait None 0 None \<lparr>tv_sec = 0, tv_nsec = 2000000000\<rparr>
     = \<lparr>tw_ret = - 1, tw_errno = Some EINVAL, tw_takes = []\<rparr>"
  by (simp add: sem_timedwait_def Let_def word_sless_alt)

subsection \<open>C6: the relative wait\<close>

text \<open>
  C6, as the code has it: for a deadline that passes the range test, the timeout handed to
  \<open>k_sem_take\<close>, read as a signed 32-bit number, is
  \<open>tv_sec * 1000 + tv_nsec / 1000000 - now\<close> reduced to 32 bits, and it is that difference
  itself whenever the difference lies in \<open>[-2^31, 2^31)\<close>. So with the clock at \<open>T0\<close> ms and
  a deadline \<open>D\<close> ms later the wait is \<open>D\<close> for \<open>D < 2^31\<close>, and a deadline at most
  \<open>2^31\<close> ms in the past gives a wait that is not positive.
\<close>

theorem relative_wait_signed_32:
  assumes "0 \<le>s tv_nsec ts" and "tv_nsec ts \<le>s 1000000000"
  shows "map sint (tw_takes (sem_timedwait take_ret now err ts))
           = [signed_take_bit 31
                (sint (tv_sec ts) * 1000 + sint (tv_nsec ts) div 1000000 - sint now)] \<and>
         (- (2 ^ 31) \<le> sint (tv_sec ts) * 1000 + sint (tv_nsec ts) div 1000000 - sint now \<and>
          sint (tv_sec ts) * 1000 + sint (tv_nsec ts) div 1000000 - sint now < 2 ^ 31 \<longrightarrow>
          map sint (tw_takes (sem_timedwait take_ret now err ts))
            = [sint (tv_sec ts) * 1000 + sint (tv_nsec ts) div 1000000 - sint now]) \<and>
         (0 \<le> D \<and> D < 2 ^ 31 \<and>
          sint (tv_sec ts) * 1000 + sint (tv_nsec ts) div 1000000 = sint now + D \<longrightarrow>
          map sint (tw_takes (sem_timedwait take_ret now err ts)) = [D]) \<and>
         (sint (tv_sec ts) * 1000 + sint (tv_nsec ts) div 1000000 \<le> sint now \<and>
          sint now - 2 ^ 31 \<le> sint (tv_sec ts) * 1000 + sint (tv_nsec ts) div 1000000 \<longrightarrow>
          list_all (\<lambda>t. t \<le> 0) (map sint (tw_takes (sem_timedwait take_ret now err ts))))"
proof -
  let ?d = "sint (tv_sec ts) * 1000 + sint (tv_nsec ts) div 1000000 - sint now"
  let ?w = "map sint (tw_takes (sem_timedwait take_ret now err ts))"
  have w: "?w = [signed_take_bit 31 ?d]"
    by (rule relative_wait_sint [OF assms])
  have e: "?w = [?d]" if "- (2 ^ 31) \<le> ?d" and "?d < 2 ^ 31"
    using that w by (simp add: signed_take_bit_int_eq_self_iff)
  have f: "?w = [D]"
    if "0 \<le> D" and "D < 2 ^ 31"
      and "sint (tv_sec ts) * 1000 + sint (tv_nsec ts) div 1000000 = sint now + D"
  proof -
    from that have "?d = D" by simp
    with e that show ?thesis by simp
  qed
  have p: "list_all (\<lambda>t. t \<le> 0) ?w"
    if "sint (tv_sec ts) * 1000 + sint (tv_nsec ts) div 1000000 \<le> sint now"
      and "sint now - 2 ^ 31 \<le> sint (tv_sec ts) * 1000 + sint (tv_nsec ts) div 1000000"
  proof -
    from that have "- (2 ^ 31) \<le> ?d" and "?d < 2 ^ 31" and "?d \<le> 0" by simp_all
    with e show ?thesis by simp
  qed
  from w e f p show ?thesis by blast
qed

text \<open>
  The theorem for the deadline 10.5 s: with the clock at 4000 ms the wait is 6500 ms,
  with the clock at 20000 ms it is -9500 ms.
\<close>

theorem relative_wait_witness:
  "0 \<le>s (500000000 :: 32 word) \<and> (500000000 :: 32 word) \<le>s 1000000000 \<and>
   map sint (tw_takes (sem_timedwait None 4000 None \<lparr>tv_sec = 10, tv_nsec = 500000000\<rparr>)) = [6500] \<and>
   map sint (tw_takes (sem_timedwait None 20000 None \<lparr>tv_sec = 10, tv_nsec = 500000000\<rparr>)) = [- 9500]"
proof -
  have h1: "0 \<le>s tv_nsec \<lparr>tv_sec = 10, tv_nsec = 500000000\<rparr>"
    and h2: "tv_nsec \<lparr>tv_sec = 10, tv_nsec = 500000000\<rparr> \<le>s 1000000000"
    by (simp_all add: word_sle_eq)
  from relative_wait_signed_32 [OF h1 h2, where D = 6500 and now = 4000 and take_ret = None and err = None]
    relative_wait_signed_32 [OF h1 h2, where D = 0 and now = 20000 and take_ret = None and err = None]
  show ?thesis by (simp add: word_sle_eq)
qed

text \<open>
  Against C6 as stated (the wait equals the difference for every valid deadline): with
  the clock at 0 and the deadline 2147483 s and 999 ms away, the difference is 2147483999
  ms and the timeout handed to the primitive is -2147483297.
\<close>

theorem relative_wait_counterexample:
  "map sint (tw_takes (sem_timedwait None 0 None \<lparr>tv_sec = 2147483, tv_nsec = 999000000\<rparr>))
     = [- 2147483297] \<and>
   sint (2147483 :: 32 word) * 1000 + sint (999000000 :: 32 word) div 1000000 - sint (0 :: 64 word)
     = 2147483999"
  by (simp add: sem_timedwait_def Let_def word_sless_alt)

subsection \<open>C7: a failed transaction changes no slot and not the counter\<close>

text \<open>
  C7: when \<open>sem_open\<close> returns \<open>SEM_FAILED\<close>, or \<open>sem_close\<close> or \<open>sem_unlink\<close> return
  non-zero, the array \<open>sem_named\<close> and the counter \<open>sem_named_n\<close> are what they were before
  the call (only \<open>errno\<close> is assigned).
\<close>

theorem failed_transaction_keeps_table:
  "(sem_open nm oflag val s = Returns None s1 \<longrightarrow>
      sem_named s1 = sem_named s \<and> sem_named_n s1 = sem_named_n s) \<and>
   (fst (sem_close p s) \<noteq> 0 \<longrightarrow>
      sem_named (snd (sem_close p s)) = sem_named s \<and>
      sem_named_n (snd (sem_close p s)) = sem_named_n s) \<and>
   (fst (sem_unlink nm2 s) \<noteq> 0 \<longrightarrow>
      sem_named (snd (sem_unlink nm2 s)) = sem_named s \<and>
      sem_named_n (snd (sem_unlink nm2 s)) = sem_named_n s)"
proof (intro conjI impI)
  assume "sem_open nm oflag val s = Returns None s1"
  then have "s1 = s\<lparr>errno := errno s1\<rparr>"
    by (auto simp: sem_open_def Let_def split: if_splits option.splits prod.splits)
  then show "sem_named s1 = sem_named s" and "sem_named_n s1 = sem_named_n s"
    by (metis state.select_convs(2) state.surjective state.update_convs(3),
        metis state.select_convs(1) state.surjective state.update_convs(3))
next
  assume "fst (sem_close p s) \<noteq> 0"
  then have "snd (sem_close p s) = s\<lparr>errno := Some EINVAL\<rparr>"
    by (auto simp: sem_close_def split: option.splits prod.splits)
  then show "sem_named (snd (sem_close p s)) = sem_named s"
    and "sem_named_n (snd (sem_close p s)) = sem_named_n s"
    by simp_all
next
  assume "fst (sem_unlink nm2 s) \<noteq> 0"
  then have "snd (sem_unlink nm2 s) = s\<lparr>errno := Some ENOENT\<rparr>"
    by (auto simp: sem_unlink_def Let_def split: option.splits prod.splits)
  then show "sem_named (snd (sem_unlink nm2 s)) = sem_named s"
    and "sem_named_n (snd (sem_unlink nm2 s)) = sem_named_n s"
    by simp_all
qed

text \<open>
  The theorem on the table holding \<open>s\<close> alone: opening and unlinking the unknown name \<open>t\<close>
  and closing a semaphore that is not in the table all fail.
\<close>

theorem failed_transaction_witness:
  "sem_open ''t'' 0 0 one_state = Returns None (one_state\<lparr>errno := Some ENOENT\<rparr>) \<and>
   fst (sem_close (Other_sem 7) one_state) \<noteq> 0 \<and>
   fst (sem_unlink ''t'' one_state) \<noteq> 0 \<and>
   sem_named (one_state\<lparr>errno := Some ENOENT\<rparr>) = sem_named one_state \<and>
   sem_named_n (one_state\<lparr>errno := Some ENOENT\<rparr>) = sem_named_n one_state \<and>
   sem_named (snd (sem_close (Other_sem 7) one_state)) = sem_named one_state \<and>
   sem_named_n (snd (sem_close (Other_sem 7) one_state)) = sem_named_n one_state \<and>
   sem_named (snd (sem_unlink ''t'' one_state)) = sem_named one_state \<and>
   sem_named_n (snd (sem_unlink ''t'' one_state)) = sem_named_n one_state"
proof -
  have h1: "sem_open ''t'' 0 0 one_state = Returns None (one_state\<lparr>errno := Some ENOENT\<rparr>)"
    by code_simp
  have h2: "fst (sem_close (Other_sem 7) one_state) \<noteq> 0"
    by code_simp
  have h3: "fst (sem_unlink ''t'' one_state) \<noteq> 0"
    by code_simp
  from failed_transaction_keeps_table
    [of "''t''" 0 0 one_state "one_state\<lparr>errno := Some ENOENT\<rparr>" "Other_sem 7" "''t''"] h1 h2 h3
  show ?thesis by blast
qed

subsection \<open>C8: exclusive creation of a live name\<close>

text \<open>
  C8, as the code has it: \<open>sem_open\<close> of a live name with \<open>O_EXCL\<close> set fails and leaves
  the table unchanged, whatever the other flags; the error is \<open>EEXIST\<close> when the counter
  differs from the limit 32, and \<open>ENFILE\<close> when it equals the limit.
\<close>

theorem sem_open_excl_on_live_name:
  "find_by_name_nsem nm s = Some i \<Longrightarrow> oflag AND O_EXCL \<noteq> 0 \<Longrightarrow>
   sem_open nm oflag val s =
     Returns None (s\<lparr>errno := Some (if sem_named_n s = SEM_NAMED_N_LIMIT then ENFILE else EEXIST)\<rparr>)"
  by (simp add: sem_open_def)

text \<open>
  The theorem on the table holding \<open>s\<close> alone (\<open>EEXIST\<close>) and on the full table
  (\<open>ENFILE\<close>, here with \<open>O_CREAT\<close> set as well).
\<close>

theorem sem_open_excl_witness:
  "find_by_name_nsem ''s'' one_state = Some 0 \<and> O_EXCL AND O_EXCL \<noteq> 0 \<and>
   sem_open ''s'' O_EXCL 0 one_state = Returns None (one_state\<lparr>errno := Some EEXIST\<rparr>) \<and>
   find_by_name_nsem ''a1'' full_state = Some 1 \<and> (O_CREAT OR O_EXCL) AND O_EXCL \<noteq> 0 \<and>
   sem_open ''a1'' (O_CREAT OR O_EXCL) 0 full_state = Returns None (full_state\<lparr>errno := Some ENFILE\<rparr>)"
proof -
  have h1: "find_by_name_nsem ''s'' one_state = Some 0"
    by code_simp
  have h2: "O_EXCL AND O_EXCL \<noteq> 0"
    by code_simp
  have h3: "find_by_name_nsem ''a1'' full_state = Some 1"
    by code_simp
  have h4: "(O_CREAT OR O_EXCL) AND O_EXCL \<noteq> 0"
    by code_simp
  have n1: "sem_named_n one_state \<noteq> SEM_NAMED_N_LIMIT"
    by code_simp
  have n2: "sem_named_n full_state = SEM_NAMED_N_LIMIT"
    by code_simp
  from sem_open_excl_on_live_name [OF h1 h2, of 0] sem_open_excl_on_live_name [OF h3 h4, of 0]
    h1 h2 h3 h4 n1 n2
  show ?thesis by simp
qed

text \<open>
  Against C8 as stated (the error is always \<open>EEXIST\<close>): in the full table \<open>a1\<close> is live,
  and opening it with \<open>O_EXCL\<close> fails with \<open>ENFILE\<close>.
\<close>

theorem excl_full_table_counterexample:
  "find_by_name_nsem ''a1'' full_state = Some 1 \<and>
   sem_open ''a1'' O_EXCL 0 full_state = Returns None (full_state\<lparr>errno := Some ENFILE\<rparr>)"
  by code_simp

subsection \<open>C9: closing a slot whose count is zero\<close>

text \<open>
  C9: \<open>sem_close\<close> on the semaphore of a slot in use whose \<open>refs\<close> is 0 returns 0, changes
  nothing but \<open>refs\<close>, which wraps to \<open>2^32 - 1\<close>, and leaves the slot in use.
\<close>

theorem sem_close_refs_zero_wraps:
  assumes "i < length (sem_named s)" and "in_use (sem_named s ! i)"
    and "refs (sem_named s ! i) = 0"
  shows "sem_close (Slot_sem i) s
           = (0, s\<lparr>sem_named := (sem_named s)[i := (sem_named s ! i)\<lparr>refs := 4294967295\<rparr>]\<rparr>) \<and>
         unat (refs (sem_named (snd (sem_close (Slot_sem i) s)) ! i)) = 2 ^ 32 - 1 \<and>
         in_use (sem_named (snd (sem_close (Slot_sem i) s)) ! i)"
proof -
  from assms have f: "find_by_addr_nsem (Slot_sem i) s = Some i"
    by (simp add: find_by_addr_nsem_Some)
  have m: "(4294967295 :: 32 word) = - 1" by simp
  have c: "sem_close (Slot_sem i) s
           = (0, s\<lparr>sem_named := (sem_named s)[i := (sem_named s ! i)\<lparr>refs := 4294967295\<rparr>]\<rparr>)"
    using assms by (simp add: sem_close_def f dereference_nsem_def update_nsem_def Let_def m)
  show ?thesis
    unfolding c using assms by simp
qed

text \<open>
  The theorem on the table holding \<open>s\<close> alone, after its one handle has been closed: a
  second close of the same handle.
\<close>

theorem sem_close_refs_zero_witness:
  "0 < length (sem_named (snd (sem_close (Slot_sem 0) one_state))) \<and>
   in_use (sem_named (snd (sem_close (Slot_sem 0) one_state)) ! 0) \<and>
   refs (sem_named (snd (sem_close (Slot_sem 0) one_state)) ! 0) = 0 \<and>
   fst (sem_close (Slot_sem 0) (snd (sem_close (Slot_sem 0) one_state))) = 0 \<and>
   unat (refs (sem_named (snd (sem_close (Slot_sem 0) (snd (sem_close (Slot_sem 0) one_state)))) ! 0))
     = 4294967295 \<and>
   in_use (sem_named (snd (sem_close (Slot_sem 0) (snd (sem_close (Slot_sem 0) one_state)))) ! 0)"
proof -
  have h1: "0 < length (sem_named (snd (sem_close (Slot_sem 0) one_state)))"
    by code_simp
  have h2: "in_use (sem_named (snd (sem_close (Slot_sem 0) one_state)) ! 0)"
    by code_simp
  have h3: "refs (sem_named (snd (sem_close (Slot_sem 0) one_state)) ! 0) = 0"
    by code_simp
  from sem_close_refs_zero_wraps [OF h1 h2 h3] h1 h2 h3
  show ?thesis by simp
qed

subsection \<open>C10: a torn-down slot is invisible\<close>

text \<open>
  C10: \<open>free_nsem\<close> clears \<open>in_use\<close>; a slot whose \<open>in_use\<close> is clear is found neither by
  name nor by address, and \<open>sem_close\<close> on its semaphore returns -1 with \<open>EINVAL\<close> and
  changes nothing else.
\<close>

theorem torn_down_slot_invisible:
  assumes "i < length (sem_named s)"
  shows "\<not> in_use (sem_named (free_nsem i s) ! i) \<and>
         (\<not> in_use (sem_named s ! i) \<longrightarrow>
            find_by_name_nsem nm s \<noteq> Some i \<and>
            find_by_addr_nsem (Slot_sem i) s = None \<and>
            sem_close (Slot_sem i) s = (- 1, s\<lparr>errno := Some EINVAL\<rparr>))"
proof (intro conjI impI)
  show "\<not> in_use (sem_named (free_nsem i s) ! i)"
    using assms by (simp add: free_nsem_def update_nsem_def sem_destroy_def Let_def)
next
  assume n: "\<not> in_use (sem_named s ! i)"
  then show "find_by_name_nsem nm s \<noteq> Some i"
    by (auto dest: find_by_name_nsem_SomeD)
  from n have "find_by_addr_nsem (Slot_sem i) s \<noteq> Some j" for j
    by (auto simp: find_by_addr_nsem_Some)
  then show a: "find_by_addr_nsem (Slot_sem i) s = None"
    by (cases "find_by_addr_nsem (Slot_sem i) s") auto
  then show "sem_close (Slot_sem i) s = (- 1, s\<lparr>errno := Some EINVAL\<rparr>)"
    by (simp add: sem_close_def)
qed

text \<open>
  The theorem on the table holding \<open>s\<close> alone, before and after slot 0 is torn down.
\<close>

theorem torn_down_slot_witness:
  "0 < length (sem_named one_state) \<and>
   \<not> in_use (sem_named (free_nsem 0 one_state) ! 0) \<and>
   0 < length (sem_named (free_nsem 0 one_state)) \<and>
   find_by_name_nsem ''s'' (free_nsem 0 one_state) \<noteq> Some 0 \<and>
   find_by_addr_nsem (Slot_sem 0) (free_nsem 0 one_state) = None \<and>
   sem_close (Slot_sem 0) (free_nsem 0 one_state)
     = (- 1, (free_nsem 0 one_state)\<lparr>errno := Some EINVAL\<rparr>)"
proof -
  have h1: "0 < length (sem_named one_state)"
    by code_simp
  have h2: "0 < length (sem_named (free_nsem 0 one_state))"
    by code_simp
  from torn_down_slot_invisible [OF h1, of "''s''"]
  have h3: "\<not> in_use (sem_named (free_nsem 0 one_state) ! 0)" by simp
  from torn_down_slot_invisible [OF h2, of "''s''"] h1 h2 h3
  show ?thesis by simp
qed

end
